theory Spec2Isabelle
  imports Main "HOL-Library.Word"
begin

section \<open>File locks on open file descriptions: \<^verbatim>\<open>lock/lock.go\<close>\<close>

text \<open>
  The package has one type, \<^verbatim>\<open>Locker\<close>, with a constructor \<^verbatim>\<open>New\<close> and the methods
  \<^verbatim>\<open>Lock\<close>, \<^verbatim>\<open>TryLock\<close> and \<^verbatim>\<open>Unlock\<close>. Everything the methods do goes through calls
  into other packages (\<^verbatim>\<open>filepath.Abs\<close>, \<^verbatim>\<open>os.Stat\<close>, \<^verbatim>\<open>os.OpenFile\<close>,
  \<^verbatim>\<open>unix.FcntlFlock\<close>, \<^verbatim>\<open>time.Sleep\<close>, \<^verbatim>\<open>(*os.File).Close\<close>). The embedding keeps
  the control flow of the methods as it is written and makes the two sides of every such
  call explicit:
  \<^item> what the call answers is read from an environment \<open>env\<close>, a record with one field
    per call; nothing is assumed about the answers;
  \<^item> that the call was made, and with which arguments, is appended to a list of
    \<open>event\<close>s that the method returns together with its result.
  A method mutates its receiver, so it returns the \<open>Locker\<close> as it is when the method
  returns. The Go \<^verbatim>\<open>error\<close> interface is \<open>go_error option\<close>, \<open>None\<close> being \<^verbatim>\<open>nil\<close>.
\<close>

subsection \<open>Values\<close>

text \<open>\<^verbatim>\<open>syscall.Errno\<close> is a \<^verbatim>\<open>uintptr\<close>; only equality of error numbers is used.\<close>

type_synonym errno = nat

text \<open>\<^verbatim>\<open>time.Duration\<close> is an \<^verbatim>\<open>int64\<close> count of nanoseconds.\<close>

type_synonym Duration = "64 word"

text \<open>
  The error values that occur. \<open>Errno\<close> is a \<^verbatim>\<open>syscall.Errno\<close>; \<open>PathError\<close> is the
  \<^verbatim>\<open>*fs.PathError\<close> of the \<^verbatim>\<open>os\<close> package (operation, path, cause); \<open>ErrorString\<close> is
  a value made by \<^verbatim>\<open>fmt.Errorf\<close> without verbs or by the standard \<^verbatim>\<open>errors.New\<close>;
  \<open>Fundamental\<close> is made by \<^verbatim>\<open>errors.New\<close> of \<^verbatim>\<open>github.com/pkg/errors\<close>; \<open>Wrap\<close> is made
  by \<^verbatim>\<open>errors.Wrap\<close> of that package (cause, message).
\<close>

datatype go_error =
    Errno errno
  | PathError string string go_error
  | ErrorString string
  | Fundamental string
  | Wrap go_error string

text \<open>\<^verbatim>\<open>*os.File\<close>: an open file, known by its descriptor. \<^verbatim>\<open>os.FileInfo\<close>: only
  \<^verbatim>\<open>IsDir\<close> is read.\<close>

datatype File = OsFile (Fd: nat)

datatype FileInfo = StatInfo (IsDir: bool)

text \<open>\<^verbatim>\<open>unix.Flock_t\<close>; fields that a composite literal leaves out are zero.\<close>

record Flock_t =
  Type :: "16 word"
  Whence :: "16 word"
  Start :: "64 word"
  Len :: "64 word"
  Pid :: "32 word"

subsection \<open>Constants of the source\<close>

definition Millisecond :: Duration where
  "Millisecond = 1000000"

definition defaultRetryInterval :: Duration where
  "defaultRetryInterval = 250 * Millisecond"

definition F_OFD_GETLK :: int where
  "F_OFD_GETLK = 37"

definition F_OFD_SETLK :: int where
  "F_OFD_SETLK = 37"

definition F_OFD_SETLKW :: int where
  "F_OFD_SETLKW = 38"

definition ErrLockLocked :: go_error where
  "ErrLockLocked = ErrorString ''lock: lock is locked''"

text \<open>\<^verbatim>\<open>io.SeekStart\<close> (seek relative to the origin of the file) and \<^verbatim>\<open>os.ErrInvalid\<close>,
  from the standard library.\<close>

definition SeekStart :: int where
  "SeekStart = 0"

definition ErrInvalid :: go_error where
  "ErrInvalid = ErrorString ''invalid argument''"

text \<open>The permission argument \<^verbatim>\<open>0660\<close> of \<^verbatim>\<open>os.OpenFile\<close>, an octal literal.\<close>

definition perm0660 :: "32 word" where
  "perm0660 = 6 * 8 * 8 + 6 * 8 + 0"

subsection \<open>The environment and the events\<close>

text \<open>
  The constants of \<^verbatim>\<open>golang.org/x/sys/unix\<close> and \<^verbatim>\<open>os\<close> that the source names are
  parameters (\<open>EAGAIN\<close> and \<open>EWOULDBLOCK\<close> may or may not be the same number), and so
  are the answers of the calls. A lock request is repeated with the same arguments, so
  \<open>unix_FcntlFlock\<close> also takes the number of requests made before in the same call
  of the method; its answer \<open>None\<close> is success.
\<close>

record env =
  EAGAIN :: errno
  EWOULDBLOCK :: errno
  F_WRLCK :: "16 word"
  O_RDWR :: int
  filepath_Abs :: "string \<Rightarrow> go_error + string"
  os_Stat :: "string \<Rightarrow> go_error + FileInfo"
  os_IsNotExist :: "go_error \<Rightarrow> bool"
  os_OpenFile :: "string \<Rightarrow> int \<Rightarrow> 32 word \<Rightarrow> go_error + File"
  unix_FcntlFlock :: "nat \<Rightarrow> nat \<Rightarrow> int \<Rightarrow> Flock_t \<Rightarrow> errno option"
  file_close :: "File \<Rightarrow> go_error option"

datatype event =
    Call_Abs string
  | Call_Stat string
  | Call_OpenFile string int "32 word"
  | Call_FcntlFlock nat int Flock_t
  | Call_Sleep Duration
  | Call_Close File

subsection \<open>The Locker\<close>

text \<open>The struct's field \<^verbatim>\<open>file\<close> is \<open>file'\<close> here (the plain name is a keyword of
  Isabelle); \<open>None\<close> is the \<^verbatim>\<open>nil\<close> pointer.\<close>

record Locker =
  path :: string
  file' :: "File option"
  retryInterval :: Duration

definition New :: "string \<Rightarrow> Duration \<Rightarrow> Locker" where
  "New p d =
     (let d = (if d = 0 then defaultRetryInterval else d)
      in \<lparr>path = p, file' = None, retryInterval = d\<rparr>)"

text \<open>The lock request of both methods:
  \<^verbatim>\<open>&unix.Flock_t{Type: unix.F_WRLCK, Whence: int16(io.SeekStart)}\<close>.\<close>

definition lock_request :: "env \<Rightarrow> Flock_t" where
  "lock_request s =
     \<lparr>Type = F_WRLCK s, Whence = word_of_int SeekStart, Start = 0, Len = 0, Pid = 0\<rparr>"

text \<open>
  \<^verbatim>\<open>(*os.File).Close\<close>. The method of the standard library starts with
  \<^verbatim>\<open>if f == nil { return ErrInvalid }\<close>: on the \<^verbatim>\<open>nil\<close> receiver it returns without a
  system call. Otherwise the file is closed and the environment answers.
\<close>

definition File_Close :: "env \<Rightarrow> File option \<Rightarrow> go_error option \<times> event list" where
  "File_Close s fp =
     (case fp of
        None \<Rightarrow> (Some ErrInvalid, [])
      | Some f \<Rightarrow> (file_close s f, [Call_Close f]))"

text \<open>
  One pass through the body of the \<^verbatim>\<open>for\<close> loop of \<^verbatim>\<open>Lock\<close>; \<open>i\<close> counts the
  requests made before, \<open>tr\<close> holds the events so far. \<open>Inl\<close> leaves the loop, with
  the error that \<^verbatim>\<open>Lock\<close> returns at once or with \<open>None\<close> for \<^verbatim>\<open>break\<close>;
  \<open>Inr\<close> goes round again. The result of \<^verbatim>\<open>file.Close()\<close> is dropped, as in the source.
\<close>

definition Lock_body ::
  "env \<Rightarrow> Duration \<Rightarrow> File \<Rightarrow> nat \<Rightarrow> event list
     \<Rightarrow> (go_error option \<times> event list) + event list"
where
  "Lock_body s d f i tr =
     (let err = map_option Errno (unix_FcntlFlock s i (Fd f) F_OFD_SETLK (lock_request s));
          tr = tr @ [Call_FcntlFlock (Fd f) F_OFD_SETLK (lock_request s)]
      in case err of
           None \<Rightarrow> Inl (None, tr)
         | Some e \<Rightarrow>
             if e \<noteq> Errno (EWOULDBLOCK s)
             then Inl (Some (Wrap e ''lock failed''), tr @ snd (File_Close s (Some f)))
             else Inr (tr @ [Call_Sleep d]))"

text \<open>
  The loop has no bound, so it is a partial function: \<open>None\<close> is a loop that never
  ends.
\<close>

partial_function (option) Lock_loop ::
  "env \<Rightarrow> Duration \<Rightarrow> File \<Rightarrow> nat \<Rightarrow> event list \<Rightarrow> (go_error option \<times> event list) option"
where
  "Lock_loop s d f i tr =
     (case Lock_body s d f i tr of
        Inl r \<Rightarrow> Some r
      | Inr tr' \<Rightarrow> Lock_loop s d f (i + 1) tr')"

declare Lock_loop.simps [code]

text \<open>
  \<^verbatim>\<open>Lock\<close>. The result is \<open>None\<close> when the call never returns, and otherwise the
  returned error, the Locker and the events of the call.
\<close>

definition Lock :: "env \<Rightarrow> Locker \<Rightarrow> (go_error option \<times> Locker \<times> event list) option" where
  "Lock s l =
     (case filepath_Abs s (path l) of
        Inl err \<Rightarrow>
          Some (Some (Wrap err ''absolute represenation of path failed''), l,
                [Call_Abs (path l)])
      | Inr abs' \<Rightarrow>
          (case os_Stat s abs' of
             Inl err \<Rightarrow>
               if os_IsNotExist s err
               then Some (Some (Wrap err ''path doesn't exist''), l,
                          [Call_Abs (path l), Call_Stat abs'])
               else Some (Some (Wrap err ''stat failed''), l,
                          [Call_Abs (path l), Call_Stat abs'])
           | Inr fi \<Rightarrow>
               if IsDir fi
               then Some (Some (Fundamental ''directory not allowed''), l,
                          [Call_Abs (path l), Call_Stat abs'])
               else
                 (case os_OpenFile s abs' (O_RDWR s) perm0660 of
                    Inl err \<Rightarrow>
                      Some (Some (Wrap err ''open failed''), l,
                            [Call_Abs (path l), Call_Stat abs',
                             Call_OpenFile abs' (O_RDWR s) perm0660])
                  | Inr f \<Rightarrow>
                      (case Lock_loop s (retryInterval l) f 0
                              [Call_Abs (path l), Call_Stat abs',
                               Call_OpenFile abs' (O_RDWR s) perm0660] of
                         None \<Rightarrow> None
                       | Some (Some err, tr) \<Rightarrow> Some (Some err, l, tr)
                       | Some (None, tr) \<Rightarrow>
                           Some (None, l\<lparr>path := abs', file' := Some f\<rparr>, tr)))))"

text \<open>\<^verbatim>\<open>TryLock\<close>: the same steps with one lock request, so it always returns.\<close>

definition TryLock :: "env \<Rightarrow> Locker \<Rightarrow> go_error option \<times> Locker \<times> event list" where
  "TryLock s l =
     (case filepath_Abs s (path l) of
        Inl err \<Rightarrow> (Some (Wrap err ''abs failed''), l, [Call_Abs (path l)])
      | Inr abs' \<Rightarrow>
          (case os_Stat s abs' of
             Inl err \<Rightarrow>
               if os_IsNotExist s err
               then (Some (Wrap err ''path doesn't exist''), l,
                     [Call_Abs (path l), Call_Stat abs'])
               else (Some (Wrap err ''stat failed''), l,
                     [Call_Abs (path l), Call_Stat abs'])
           | Inr fi \<Rightarrow>
               if IsDir fi
               then (Some (Fundamental ''directories are not allowed''), l,
                     [Call_Abs (path l), Call_Stat abs'])
               else
                 (case os_OpenFile s abs' (O_RDWR s) perm0660 of
                    Inl err \<Rightarrow>
                      (Some (Wrap err ''open failed''), l,
                       [Call_Abs (path l), Call_Stat abs',
                        Call_OpenFile abs' (O_RDWR s) perm0660])
                  | Inr f \<Rightarrow>
                      (let err = map_option Errno
                                   (unix_FcntlFlock s 0 (Fd f) F_OFD_SETLK (lock_request s));
                           tr = [Call_Abs (path l), Call_Stat abs',
                                 Call_OpenFile abs' (O_RDWR s) perm0660,
                                 Call_FcntlFlock (Fd f) F_OFD_SETLK (lock_request s)]
                       in case err of
                            Some e \<Rightarrow>
                              (Some (if e = Errno (EAGAIN s) \<or> e = Errno (EWOULDBLOCK s)
                                     then ErrLockLocked else e), l, tr)
                          | None \<Rightarrow> (None, l\<lparr>path := abs', file' := Some f\<rparr>, tr)))))"

text \<open>\<^verbatim>\<open>Unlock\<close>: closes \<^verbatim>\<open>l.file\<close>; no field of the Locker is assigned.\<close>

definition Unlock :: "env \<Rightarrow> Locker \<Rightarrow> go_error option \<times> Locker \<times> event list" where
  "Unlock s l =
     (case File_Close s (file' l) of
        (Some err, tr) \<Rightarrow> (Some (Wrap err ''close failed''), l, tr)
      | (None, tr) \<Rightarrow> (None, l, tr))"

subsection \<open>Environments to run the methods in\<close>

text \<open>
  A small file system: every path is resolved below \<open>/tmp/\<close>, the regular file
  \<open>/tmp/x.lock\<close> and the directory \<open>/tmp/d\<close> exist, the file \<open>/tmp/secret\<close> exists
  and cannot be opened, nothing else exists, and a path that starts with a NUL byte is
  not resolved. Opening yields descriptor 3. The error numbers are those of Linux
  (\<open>ENOENT = 2\<close>, \<open>EIO = 5\<close>, \<open>EAGAIN = EWOULDBLOCK = 11\<close>, \<open>EACCES = 13\<close>,
  \<open>EINVAL = 22\<close>). The answers to the lock requests and to the close are the
  parameters \<open>locks\<close> and \<open>cl\<close>.
\<close>

definition tmp_Abs :: "string \<Rightarrow> go_error + string" where
  "tmp_Abs p = (if take 1 p = [CHR 0x00] then Inl (Errno 22) else Inr (''/tmp/'' @ p))"

definition tmp_Stat :: "string \<Rightarrow> go_error + FileInfo" where
  "tmp_Stat p =
     (if p = ''/tmp/x.lock'' \<or> p = ''/tmp/secret'' then Inr (StatInfo False)
      else if p = ''/tmp/d'' then Inr (StatInfo True)
      else if p = ''/tmp/bad'' then Inl (PathError ''stat'' p (Errno 5))
      else Inl (PathError ''stat'' p (Errno 2)))"

fun tmp_IsNotExist :: "go_error \<Rightarrow> bool" where
  "tmp_IsNotExist (PathError _ _ (Errno n)) = (n = 2)"
| "tmp_IsNotExist _ = False"

definition tmp_OpenFile :: "string \<Rightarrow> int \<Rightarrow> 32 word \<Rightarrow> go_error + File" where
  "tmp_OpenFile p flag perm =
     (if p = ''/tmp/secret'' then Inl (PathError ''open'' p (Errno 13)) else Inr (OsFile 3))"

definition tmp_env :: "(nat \<Rightarrow> errno option) \<Rightarrow> go_error option \<Rightarrow> env" where
  "tmp_env locks cl =
     \<lparr>EAGAIN = 11, EWOULDBLOCK = 11, F_WRLCK = 1, O_RDWR = 2,
      filepath_Abs = tmp_Abs, os_Stat = tmp_Stat, os_IsNotExist = tmp_IsNotExist,
      os_OpenFile = tmp_OpenFile,
      unix_FcntlFlock = (\<lambda>i fd cmd lk. locks i),
      file_close = (\<lambda>f. cl)\<rparr>"

text \<open>Answers to the lock requests: free at once; held by another for the first
  two requests; held for ever; broken (\<open>EIO\<close>).\<close>

definition locks_free :: "nat \<Rightarrow> errno option" where
  "locks_free i = None"

definition locks_busy2 :: "nat \<Rightarrow> errno option" where
  "locks_busy2 i = (if i < 2 then Some 11 else None)"

definition locks_held :: "nat \<Rightarrow> errno option" where
  "locks_held i = Some 11"

definition locks_broken :: "nat \<Rightarrow> errno option" where
  "locks_broken i = Some 5"

subsection \<open>Notions to state the properties with\<close>

text \<open>
  \<open>opens s l a f\<close>: in the environment \<open>s\<close> an acquisition on \<open>l\<close> passes its checks,
  with \<open>a\<close> the absolute path and \<open>f\<close> the file it opens, so that it comes to its
  lock request. \<open>open_events\<close> are the calls made up to there. \<open>answer s f i\<close> is
  the answer to request number \<open>i\<close>, and \<open>request s f\<close> the event of a request.
  \<open>retries s d f n\<close> are the events of \<open>n\<close> requests, each followed by a sleep of \<open>d\<close>.
\<close>

definition opens :: "env \<Rightarrow> Locker \<Rightarrow> string \<Rightarrow> File \<Rightarrow> bool" where
  "opens s l a f \<longleftrightarrow>
     filepath_Abs s (path l) = Inr a \<and>
     (case os_Stat s a of Inl err \<Rightarrow> False | Inr fi \<Rightarrow> \<not> IsDir fi) \<and>
     os_OpenFile s a (O_RDWR s) perm0660 = Inr f"

definition open_events :: "env \<Rightarrow> Locker \<Rightarrow> string \<Rightarrow> event list" where
  "open_events s l a =
     [Call_Abs (path l), Call_Stat a, Call_OpenFile a (O_RDWR s) perm0660]"

definition answer :: "env \<Rightarrow> File \<Rightarrow> nat \<Rightarrow> errno option" where
  "answer s f i = unix_FcntlFlock s i (Fd f) F_OFD_SETLK (lock_request s)"

definition request :: "env \<Rightarrow> File \<Rightarrow> event" where
  "request s f = Call_FcntlFlock (Fd f) F_OFD_SETLK (lock_request s)"

definition retries :: "env \<Rightarrow> Duration \<Rightarrow> File \<Rightarrow> nat \<Rightarrow> event list" where
  "retries s d f n = concat (replicate n [request s f, Call_Sleep d])"

section \<open>Properties\<close>

subsection \<open>The lock-request loop\<close>

lemma Lock_body_answer:
  "Lock_body s d f i tr =
     (case answer s f i of
        None \<Rightarrow> Inl (None, tr @ [request s f])
      | Some e \<Rightarrow>
          if e = EWOULDBLOCK s then Inr (tr @ [request s f, Call_Sleep d])
          else Inl (Some (Wrap (Errno e) ''lock failed''), tr @ [request s f, Call_Close f]))"
  by (simp add: Lock_body_def answer_def request_def File_Close_def split: option.splits)

lemma Lock_loop_run:
  assumes "\<forall>k<n. answer s f (i + k) = Some (EWOULDBLOCK s)"
    and "answer s f (i + n) \<noteq> Some (EWOULDBLOCK s)"
  shows "Lock_loop s d f i tr =
     Some (case answer s f (i + n) of
        None \<Rightarrow> (None, tr @ retries s d f n @ [request s f])
      | Some e \<Rightarrow> (Some (Wrap (Errno e) ''lock failed''),
                    tr @ retries s d f n @ [request s f, Call_Close f]))"
  using assms
proof (induction n arbitrary: i tr)
  case 0
  then show ?case
    by (subst Lock_loop.simps) (auto simp: Lock_body_answer retries_def split: option.splits)
next
  case (Suc n)
  from Suc.prems(1) have now: "answer s f i = Some (EWOULDBLOCK s)"
    by (metis add.right_neutral zero_less_Suc)
  have later: "\<forall>k<n. answer s f (Suc i + k) = Some (EWOULDBLOCK s)"
    using Suc.prems(1) by (metis Suc_less_eq add_Suc_shift)
  have last: "answer s f (Suc i + n) \<noteq> Some (EWOULDBLOCK s)"
    using Suc.prems(2) by simp
  have "Lock_loop s d f i tr = Lock_loop s d f (Suc i) (tr @ [request s f, Call_Sleep d])"
    by (subst Lock_loop.simps) (simp add: Lock_body_answer now)
  also note Suc.IH [OF later last]
  finally show ?case
    by (simp add: retries_def split: option.splits)
qed

lemma Lock_loop_returns:
  assumes ret: "Lock_loop s d f i tr = Some y"
  shows "\<exists>n. answer s f (i + n) \<noteq> Some (EWOULDBLOCK s)"
proof (rule Lock_loop.raw_induct
    [where P = "\<lambda>s d f i tr y. \<exists>n. answer s f (i + n) \<noteq> Some (EWOULDBLOCK s)", OF _ ret])
  fix loop s d f i tr y
  assume IH: "\<And>s d f i tr y. loop s d f i tr = Some y \<Longrightarrow>
                \<exists>n. answer s f (i + n) \<noteq> Some (EWOULDBLOCK s)"
    and step: "(case Lock_body s d f i tr of Inl r \<Rightarrow> Some r
                | Inr tr' \<Rightarrow> loop s d f (i + 1) tr') = Some y"
  show "\<exists>n. answer s f (i + n) \<noteq> Some (EWOULDBLOCK s)"
  proof (cases "answer s f i = Some (EWOULDBLOCK s)")
    case True
    with step have "loop s d f (i + 1) (tr @ [request s f, Call_Sleep d]) = Some y"
      by (simp add: Lock_body_answer)
    from IH [OF this] obtain n where "answer s f (i + 1 + n) \<noteq> Some (EWOULDBLOCK s)" ..
    then have "answer s f (i + Suc n) \<noteq> Some (EWOULDBLOCK s)"
      by simp
    then show ?thesis ..
  next
    case False
    then have "answer s f (i + 0) \<noteq> Some (EWOULDBLOCK s)"
      by simp
    then show ?thesis ..
  qed
qed

text \<open>The first request that is not answered with would-block, if there is one.\<close>

lemma first_other_answer:
  assumes "answer s f m \<noteq> Some (EWOULDBLOCK s)"
  obtains n where "\<forall>k<n. answer s f k = Some (EWOULDBLOCK s)"
    and "answer s f n \<noteq> Some (EWOULDBLOCK s)"
proof -
  define n where "n = (LEAST k. answer s f k \<noteq> Some (EWOULDBLOCK s))"
  have "answer s f n \<noteq> Some (EWOULDBLOCK s)"
    unfolding n_def using assms by (rule LeastI)
  moreover have "\<forall>k<n. answer s f k = Some (EWOULDBLOCK s)"
    unfolding n_def using not_less_Least by blast
  ultimately show thesis using that by blast
qed

lemma Lock_loop_None_iff:
  "Lock_loop s d f 0 tr = None \<longleftrightarrow> (\<forall>i. answer s f i = Some (EWOULDBLOCK s))"
proof
  assume none: "Lock_loop s d f 0 tr = None"
  show "\<forall>i. answer s f i = Some (EWOULDBLOCK s)"
  proof (rule ccontr)
    assume "\<not> (\<forall>i. answer s f i = Some (EWOULDBLOCK s))"
    then obtain m where "answer s f m \<noteq> Some (EWOULDBLOCK s)" by blast
    then obtain n where "\<forall>k<n. answer s f k = Some (EWOULDBLOCK s)"
      and "answer s f n \<noteq> Some (EWOULDBLOCK s)"
      by (rule first_other_answer)
    then have "Lock_loop s d f 0 tr \<noteq> None"
      using Lock_loop_run [of n s f 0 d tr] by simp
    with none show False by contradiction
  qed
next
  assume held: "\<forall>i. answer s f i = Some (EWOULDBLOCK s)"
  show "Lock_loop s d f 0 tr = None"
  proof (cases "Lock_loop s d f 0 tr")
    case None
    then show ?thesis .
  next
    case (Some y)
    from Lock_loop_returns [OF this] held show ?thesis by simp
  qed
qed

lemma Lock_opens:
  assumes "opens s l a f"
  shows "Lock s l =
     (case Lock_loop s (retryInterval l) f 0 (open_events s l a) of
        None \<Rightarrow> None
      | Some (Some err, tr) \<Rightarrow> Some (Some err, l, tr)
      | Some (None, tr) \<Rightarrow> Some (None, l\<lparr>path := a, file' := Some f\<rparr>, tr))"
  using assms by (auto simp: opens_def Lock_def open_events_def split: sum.splits)

lemma TryLock_opens:
  assumes "opens s l a f"
  shows "TryLock s l =
     (case answer s f 0 of
        None \<Rightarrow> (None, l\<lparr>path := a, file' := Some f\<rparr>, open_events s l a @ [request s f])
      | Some e \<Rightarrow>
          (Some (if e = EAGAIN s \<or> e = EWOULDBLOCK s then ErrLockLocked else Errno e), l,
           open_events s l a @ [request s f]))"
  using assms
  by (auto simp: opens_def TryLock_def open_events_def answer_def request_def
      split: sum.splits option.splits)

lemma Lock_run:
  assumes "opens s l a f"
    and "\<forall>i<n. answer s f i = Some (EWOULDBLOCK s)"
    and "answer s f n \<noteq> Some (EWOULDBLOCK s)"
  shows "Lock s l =
     Some (case answer s f n of
        None \<Rightarrow> (None, l\<lparr>path := a, file' := Some f\<rparr>,
                  open_events s l a @ retries s (retryInterval l) f n @ [request s f])
      | Some e \<Rightarrow> (Some (Wrap (Errno e) ''lock failed''), l,
                  open_events s l a @ retries s (retryInterval l) f n
                    @ [request s f, Call_Close f]))"
  using Lock_loop_run [of n s f 0 "retryInterval l" "open_events s l a"] assms
  by (simp add: Lock_opens split: option.splits)

subsection \<open>Evaluating in the example environments\<close>

lemmas tmp_defs =
  tmp_env_def tmp_Abs_def tmp_Stat_def tmp_OpenFile_def
  locks_free_def locks_busy2_def locks_held_def locks_broken_def
  opens_def open_events_def answer_def request_def retries_def lock_request_def
  New_def defaultRetryInterval_def Millisecond_def perm0660_def F_OFD_SETLK_def SeekStart_def

subsection \<open>Construction\<close>

text \<open>
  C8. For every path \<open>p\<close> and duration \<open>d\<close>, \<open>New p d\<close> is the Locker whose path is
  \<open>p\<close> as given, whose file handle is absent, and whose retry interval is \<open>d\<close> when
  \<open>d\<close> is not zero and 250 milliseconds (250000000 nanoseconds) when it is. \<open>New\<close>
  takes no environment and yields no events: it makes no call, so it does no I/O and
  looks at the path in no way.
\<close>

theorem New_fields:
  "New p d = \<lparr>path = p, file' = None,
               retryInterval = (if d = 0 then 250000000 else d)\<rparr>"
  by (simp add: New_def defaultRetryInterval_def Millisecond_def)

subsection \<open>Blocking acquisition\<close>



lemma Lock_None_iff:
  assumes "opens s l a f"
  shows "Lock s l = None \<longleftrightarrow> (\<forall>i. answer s f i = Some (EWOULDBLOCK s))"
proof -
  have "Lock s l = None \<longleftrightarrow> Lock_loop s (retryInterval l) f 0 (open_events s l a) = None"
    by (simp add: Lock_opens [OF assms] split: option.splits prod.splits)
  then show ?thesis
    by (simp only: Lock_loop_None_iff)
qed

lemma Lock_returns_cases:
  assumes o: "opens s l a f" and ret: "Lock s l = Some y"
  obtains n where "\<forall>i<n. answer s f i = Some (EWOULDBLOCK s)"
    and "answer s f n = None"
    and "y = (None, l\<lparr>path := a, file' := Some f\<rparr>,
              open_events s l a @ retries s (retryInterval l) f n @ [request s f])"
  | n e where "\<forall>i<n. answer s f i = Some (EWOULDBLOCK s)"
    and "answer s f n = Some e" and "e \<noteq> EWOULDBLOCK s"
    and "y = (Some (Wrap (Errno e) ''lock failed''), l,
              open_events s l a @ retries s (retryInterval l) f n
                @ [request s f, Call_Close f])"
proof -
  from ret have "Lock s l \<noteq> None" by simp
  with Lock_None_iff [OF o] obtain m where "answer s f m \<noteq> Some (EWOULDBLOCK s)"
    by blast
  then obtain n where busy: "\<forall>i<n. answer s f i = Some (EWOULDBLOCK s)"
    and other: "answer s f n \<noteq> Some (EWOULDBLOCK s)"
    by (rule first_other_answer)
  note run = Lock_run [OF o busy other]
  show thesis
  proof (cases "answer s f n")
    case None
    with run ret that(1) [OF busy None] show thesis by simp
  next
    case (Some e)
    with other have "e \<noteq> EWOULDBLOCK s" by simp
    with run ret Some that(2) [OF busy Some] show thesis by simp
  qed
qed

lemma count_list_retries:
  "count_list (retries s d f n) x = n * count_list [request s f, Call_Sleep d] x"
  by (induction n) (auto simp: retries_def)

text \<open>
  C7. \<open>Lock\<close> has no timeout and no way to be cancelled: the loop ends only on an
  answer that is not would-block. For a call that comes to its loop,
  \<^item> the call never returns exactly when every request is answered with would-block;
  \<^item> when it returns, it returns success or an error \<open>lock failed\<close> whose cause is
    not would-block, so would-block is never what the caller gets;
  \<^item> it retries without bound: whatever \<open>n\<close> is, when the first \<open>n\<close> requests are
    answered with would-block and the next one with success, the call succeeds after
    \<open>n + 1\<close> requests and \<open>n\<close> sleeps.
\<close>

theorem Lock_retries_without_bound:
  assumes "opens s l a f"
  shows "(Lock s l = None \<longleftrightarrow> (\<forall>i. answer s f i = Some (EWOULDBLOCK s)))
       \<and> (\<forall>r l' tr. Lock s l = Some (r, l', tr) \<longrightarrow>
            r = None \<or> (\<exists>e. e \<noteq> EWOULDBLOCK s \<and> r = Some (Wrap (Errno e) ''lock failed'')))
       \<and> (\<forall>n. (\<forall>i<n. answer s f i = Some (EWOULDBLOCK s)) \<and> answer s f n = None \<longrightarrow>
            (\<exists>tr. Lock s l = Some (None, l\<lparr>path := a, file' := Some f\<rparr>, tr)
                 \<and> count_list tr (request s f) = Suc n
                 \<and> count_list tr (Call_Sleep (retryInterval l)) = n))"
proof (intro conjI allI impI)
  show "Lock s l = None \<longleftrightarrow> (\<forall>i. answer s f i = Some (EWOULDBLOCK s))"
    by (rule Lock_None_iff [OF assms])
next
  fix r l' tr
  assume "Lock s l = Some (r, l', tr)"
  with assms show "r = None \<or> (\<exists>e. e \<noteq> EWOULDBLOCK s \<and> r = Some (Wrap (Errno e) ''lock failed''))"
    by (rule Lock_returns_cases) auto
next
  fix n
  assume "(\<forall>i<n. answer s f i = Some (EWOULDBLOCK s)) \<and> answer s f n = None"
  then have busy: "\<forall>i<n. answer s f i = Some (EWOULDBLOCK s)"
    and free: "answer s f n = None"
    by simp_all
  from free have "answer s f n \<noteq> Some (EWOULDBLOCK s)" by simp
  from Lock_run [OF assms busy this] free
  have "Lock s l = Some (None, l\<lparr>path := a, file' := Some f\<rparr>,
          open_events s l a @ retries s (retryInterval l) f n @ [request s f])"
    by simp
  moreover have "count_list (open_events s l a @ retries s (retryInterval l) f n @ [request s f])
                   (request s f) = Suc n"
    by (simp add: count_list_retries) (simp add: open_events_def request_def)
  moreover have "count_list (open_events s l a @ retries s (retryInterval l) f n @ [request s f])
                   (Call_Sleep (retryInterval l)) = n"
    by (simp add: count_list_retries) (simp add: open_events_def request_def)
  ultimately show "\<exists>tr. Lock s l = Some (None, l\<lparr>path := a, file' := Some f\<rparr>, tr)
                 \<and> count_list tr (request s f) = Suc n
                 \<and> count_list tr (Call_Sleep (retryInterval l)) = n"
    by blast
qed

theorem Lock_retries_without_bound_witness:
  "opens (tmp_env locks_held None) (New ''x.lock'' 0) ''/tmp/x.lock'' (OsFile 3)
   \<and> answer (tmp_env locks_held None) (OsFile 3) 0 = Some 11
   \<and> answer (tmp_env locks_held None) (OsFile 3) 1000 = Some 11
   \<and> Lock (tmp_env locks_held None) (New ''x.lock'' 0) = None"
proof -
  have o: "opens (tmp_env locks_held None) (New ''x.lock'' 0) ''/tmp/x.lock'' (OsFile 3)"
    by (simp add: tmp_defs)
  have "\<forall>i. answer (tmp_env locks_held None) (OsFile 3) i
              = Some (EWOULDBLOCK (tmp_env locks_held None))"
    by (simp add: tmp_defs)
  with Lock_retries_without_bound [OF o]
  have "Lock (tmp_env locks_held None) (New ''x.lock'' 0) = None"
    by blast
  with o show ?thesis
    by (simp add: tmp_defs)
qed

subsection \<open>What an acquisition leaves in the Locker\<close>

lemma Lock_error_state:
  assumes "Lock s l = Some (Some e, l', tr)"
  shows "l' = l"
  using assms
  by (auto simp: Lock_def split: sum.splits if_splits option.splits prod.splits)

lemma TryLock_error_state:
  assumes "TryLock s l = (Some e, l', tr)"
  shows "l' = l"
  using assms
  by (auto simp: TryLock_def Let_def split: sum.splits if_splits option.splits)

lemma Lock_success_opens:
  assumes "Lock s l = Some (None, l', tr)"
  obtains a f where "opens s l a f" and "l' = l\<lparr>path := a, file' := Some f\<rparr>"
  using assms
  by (auto simp: Lock_def opens_def split: sum.splits if_splits option.splits prod.splits)


lemma TryLock_success_state:
  assumes "TryLock s l = (None, l', tr)"
  obtains a f where "opens s l a f" and "answer s f 0 = None"
    and "l' = l\<lparr>path := a, file' := Some f\<rparr>"
  using assms
  by (auto simp: TryLock_def opens_def answer_def Let_def
      split: sum.splits if_splits option.splits)

text \<open>An acquisition whose checks do not pass: both methods stop at the same check.\<close>

lemma not_opens_cases:
  assumes "\<forall>a f. \<not> opens s l a f"
  obtains (resolve) err where "filepath_Abs s (path l) = Inl err"
  | (stat) a err where "filepath_Abs s (path l) = Inr a" and "os_Stat s a = Inl err"
  | (dir) a fi where "filepath_Abs s (path l) = Inr a" and "os_Stat s a = Inr fi"
      and "IsDir fi"
  | (opn) a fi err where "filepath_Abs s (path l) = Inr a" and "os_Stat s a = Inr fi"
      and "\<not> IsDir fi" and "os_OpenFile s a (O_RDWR s) perm0660 = Inl err"
proof (cases "filepath_Abs s (path l)")
  case (Inl err)
  then show thesis by (rule resolve)
next
  case a: (Inr a)
  show thesis
  proof (cases "os_Stat s a")
    case (Inl err)
    with a show thesis by (rule stat)
  next
    case fi: (Inr fi)
    show thesis
    proof (cases "IsDir fi")
      case True
      with a fi show thesis by (rule dir)
    next
      case False
      show thesis
      proof (cases "os_OpenFile s a (O_RDWR s) perm0660")
        case (Inl err)
        with a fi False show thesis by (rule opn)
      next
        case (Inr f)
        with a fi False have "opens s l a f" by (simp add: opens_def)
        with assms show thesis by blast
      qed
    qed
  qed
qed

lemma Lock_resolve_fails:
  assumes "filepath_Abs s (path l) = Inl err"
  shows "Lock s l = Some (Some (Wrap err ''absolute represenation of path failed''), l,
                          [Call_Abs (path l)])"
  using assms by (simp add: Lock_def)

lemma TryLock_resolve_fails:
  assumes "filepath_Abs s (path l) = Inl err"
  shows "TryLock s l = (Some (Wrap err ''abs failed''), l, [Call_Abs (path l)])"
  using assms by (simp add: TryLock_def)

lemma Lock_stat_fails:
  assumes "filepath_Abs s (path l) = Inr a" and "os_Stat s a = Inl err"
  shows "Lock s l =
     Some (Some (Wrap err (if os_IsNotExist s err then ''path doesn't exist''
                           else ''stat failed'')), l,
           [Call_Abs (path l), Call_Stat a])"
  using assms by (simp add: Lock_def)

lemma TryLock_stat_fails:
  assumes "filepath_Abs s (path l) = Inr a" and "os_Stat s a = Inl err"
  shows "TryLock s l =
     (Some (Wrap err (if os_IsNotExist s err then ''path doesn't exist''
                      else ''stat failed'')), l,
      [Call_Abs (path l), Call_Stat a])"
  using assms by (simp add: TryLock_def)

lemma Lock_directory:
  assumes "filepath_Abs s (path l) = Inr a" and "os_Stat s a = Inr fi" and "IsDir fi"
  shows "Lock s l = Some (Some (Fundamental ''directory not allowed''), l,
                          [Call_Abs (path l), Call_Stat a])"
  using assms by (simp add: Lock_def)

lemma TryLock_directory:
  assumes "filepath_Abs s (path l) = Inr a" and "os_Stat s a = Inr fi" and "IsDir fi"
  shows "TryLock s l = (Some (Fundamental ''directories are not allowed''), l,
                        [Call_Abs (path l), Call_Stat a])"
  using assms by (simp add: TryLock_def)

lemma Lock_open_fails:
  assumes "filepath_Abs s (path l) = Inr a" and "os_Stat s a = Inr fi" and "\<not> IsDir fi"
    and "os_OpenFile s a (O_RDWR s) perm0660 = Inl err"
  shows "Lock s l = Some (Some (Wrap err ''open failed''), l, open_events s l a)"
  using assms by (simp add: Lock_def open_events_def)

lemma TryLock_open_fails:
  assumes "filepath_Abs s (path l) = Inr a" and "os_Stat s a = Inr fi" and "\<not> IsDir fi"
    and "os_OpenFile s a (O_RDWR s) perm0660 = Inl err"
  shows "TryLock s l = (Some (Wrap err ''open failed''), l, open_events s l a)"
  using assms by (simp add: TryLock_def open_events_def)

subsection \<open>Failing checks\<close>

text \<open>
  C4. For \<open>Lock\<close> and for \<open>TryLock\<close>: when the path cannot be made absolute, the
  error of the resolution is returned wrapped; when the resolved path cannot be examined
  and the error says that it does not exist, that error is returned wrapped as
  \<open>path doesn't exist\<close>, and wrapped as \<open>stat failed\<close> for any other such error; when
  the path names a directory, a directory error is returned. In each of these cases the
  events of the call are the resolution and, after it, the examination of the path, so no
  file is opened, and the Locker is as it was.
\<close>

theorem acquisition_precondition_failures:
  "(filepath_Abs s (path l) = Inl err \<longrightarrow>
      Lock s l = Some (Some (Wrap err ''absolute represenation of path failed''), l,
                       [Call_Abs (path l)])
    \<and> TryLock s l = (Some (Wrap err ''abs failed''), l, [Call_Abs (path l)]))
 \<and> (filepath_Abs s (path l) = Inr a \<and> os_Stat s a = Inl err \<and> os_IsNotExist s err \<longrightarrow>
      Lock s l = Some (Some (Wrap err ''path doesn't exist''), l,
                       [Call_Abs (path l), Call_Stat a])
    \<and> TryLock s l = (Some (Wrap err ''path doesn't exist''), l,
                     [Call_Abs (path l), Call_Stat a]))
 \<and> (filepath_Abs s (path l) = Inr a \<and> os_Stat s a = Inl err \<and> \<not> os_IsNotExist s err \<longrightarrow>
      Lock s l = Some (Some (Wrap err ''stat failed''), l,
                       [Call_Abs (path l), Call_Stat a])
    \<and> TryLock s l = (Some (Wrap err ''stat failed''), l,
                     [Call_Abs (path l), Call_Stat a]))
 \<and> (filepath_Abs s (path l) = Inr a \<and> os_Stat s a = Inr fi \<and> IsDir fi \<longrightarrow>
      Lock s l = Some (Some (Fundamental ''directory not allowed''), l,
                       [Call_Abs (path l), Call_Stat a])
    \<and> TryLock s l = (Some (Fundamental ''directories are not allowed''), l,
                     [Call_Abs (path l), Call_Stat a]))"
  by (simp add: Lock_resolve_fails TryLock_resolve_fails Lock_stat_fails TryLock_stat_fails
      Lock_directory TryLock_directory)

theorem acquisition_precondition_failures_witness:
  "filepath_Abs (tmp_env locks_free None) (path (New [CHR 0x00] 0)) = Inl (Errno 22)
 \<and> Lock (tmp_env locks_free None) (New [CHR 0x00] 0) =
     Some (Some (Wrap (Errno 22) ''absolute represenation of path failed''),
           New [CHR 0x00] 0, [Call_Abs [CHR 0x00]])
 \<and> os_Stat (tmp_env locks_free None) ''/tmp/nope'' =
     Inl (PathError ''stat'' ''/tmp/nope'' (Errno 2))
 \<and> os_IsNotExist (tmp_env locks_free None) (PathError ''stat'' ''/tmp/nope'' (Errno 2))
 \<and> Lock (tmp_env locks_free None) (New ''nope'' 0) =
     Some (Some (Wrap (PathError ''stat'' ''/tmp/nope'' (Errno 2)) ''path doesn't exist''),
           New ''nope'' 0, [Call_Abs ''nope'', Call_Stat ''/tmp/nope''])
 \<and> os_Stat (tmp_env locks_free None) ''/tmp/bad'' =
     Inl (PathError ''stat'' ''/tmp/bad'' (Errno 5))
 \<and> \<not> os_IsNotExist (tmp_env locks_free None) (PathError ''stat'' ''/tmp/bad'' (Errno 5))
 \<and> TryLock (tmp_env locks_free None) (New ''bad'' 0) =
     (Some (Wrap (PathError ''stat'' ''/tmp/bad'' (Errno 5)) ''stat failed''),
      New ''bad'' 0, [Call_Abs ''bad'', Call_Stat ''/tmp/bad''])
 \<and> os_Stat (tmp_env locks_free None) ''/tmp/d'' = Inr (StatInfo True)
 \<and> TryLock (tmp_env locks_free None) (New ''d'' 0) =
     (Some (Fundamental ''directories are not allowed''),
      New ''d'' 0, [Call_Abs ''d'', Call_Stat ''/tmp/d''])"
proof -
  let ?s = "tmp_env locks_free None"
  have r: "filepath_Abs ?s (path (New [CHR 0x00] 0)) = Inl (Errno 22)"
    by (simp add: tmp_defs)
  have n: "filepath_Abs ?s (path (New ''nope'' 0)) = Inr ''/tmp/nope''
         \<and> os_Stat ?s ''/tmp/nope'' = Inl (PathError ''stat'' ''/tmp/nope'' (Errno 2))
         \<and> os_IsNotExist ?s (PathError ''stat'' ''/tmp/nope'' (Errno 2))"
    by (simp add: tmp_defs)
  have b: "filepath_Abs ?s (path (New ''bad'' 0)) = Inr ''/tmp/bad''
         \<and> os_Stat ?s ''/tmp/bad'' = Inl (PathError ''stat'' ''/tmp/bad'' (Errno 5))
         \<and> \<not> os_IsNotExist ?s (PathError ''stat'' ''/tmp/bad'' (Errno 5))"
    by (simp add: tmp_defs)
  have d: "filepath_Abs ?s (path (New ''d'' 0)) = Inr ''/tmp/d''
         \<and> os_Stat ?s ''/tmp/d'' = Inr (StatInfo True) \<and> IsDir (StatInfo True)"
    by (simp add: tmp_defs)
  note t = acquisition_precondition_failures
  from r t [where s = ?s and l = "New [CHR 0x00] 0" and err = "Errno 22"]
  have 1: "Lock ?s (New [CHR 0x00] 0) =
      Some (Some (Wrap (Errno 22) ''absolute represenation of path failed''),
            New [CHR 0x00] 0, [Call_Abs [CHR 0x00]])"
    by (simp add: New_def)
  from n t [where s = ?s and l = "New ''nope'' 0" and a = "''/tmp/nope''"
      and err = "PathError ''stat'' ''/tmp/nope'' (Errno 2)"]
  have 2: "Lock ?s (New ''nope'' 0) =
      Some (Some (Wrap (PathError ''stat'' ''/tmp/nope'' (Errno 2)) ''path doesn't exist''),
            New ''nope'' 0, [Call_Abs ''nope'', Call_Stat ''/tmp/nope''])"
    by (simp add: New_def)
  from b t [where s = ?s and l = "New ''bad'' 0" and a = "''/tmp/bad''"
      and err = "PathError ''stat'' ''/tmp/bad'' (Errno 5)"]
  have 3: "TryLock ?s (New ''bad'' 0) =
      (Some (Wrap (PathError ''stat'' ''/tmp/bad'' (Errno 5)) ''stat failed''),
       New ''bad'' 0, [Call_Abs ''bad'', Call_Stat ''/tmp/bad''])"
    by (simp add: New_def)
  from d t [where s = ?s and l = "New ''d'' 0" and a = "''/tmp/d''" and fi = "StatInfo True"]
  have 4: "TryLock ?s (New ''d'' 0) =
      (Some (Fundamental ''directories are not allowed''),
       New ''d'' 0, [Call_Abs ''d'', Call_Stat ''/tmp/d''])"
    by (simp add: New_def)
  from r n b d 1 2 3 4 show ?thesis by simp
qed

subsection \<open>The path of the Locker\<close>



subsection \<open>Non-blocking acquisition\<close>

lemma both_fail_alike:
  assumes "\<forall>a f. \<not> opens s l a f"
  shows "\<exists>e1 e2 tr. Lock s l = Some (Some e1, l, tr) \<and> TryLock s l = (Some e2, l, tr)
           \<and> count_list tr (Call_Abs (path l)) = 1
           \<and> (\<forall>f. count_list tr (request s f) = 0)"
  using assms
proof (cases rule: not_opens_cases)
  case (resolve err)
  then show ?thesis
    by (simp add: Lock_resolve_fails TryLock_resolve_fails request_def)
next
  case (stat a err)
  then show ?thesis
    by (simp add: Lock_stat_fails TryLock_stat_fails request_def)
next
  case (dir a fi)
  then show ?thesis
    by (simp add: Lock_directory TryLock_directory request_def)
next
  case (opn a fi err)
  then show ?thesis
    by (simp add: Lock_open_fails TryLock_open_fails request_def open_events_def)
qed

text \<open>
  C2. \<open>TryLock\<close> makes the checks of \<open>Lock\<close> and then a single lock request.
  \<^item> When the checks pass and the file is opened, its events are those of the checks
    and one request, with no sleep and no second request. On success the Locker gets
    the absolute path and the file. On an error number that is \<open>EAGAIN\<close> or
    \<open>EWOULDBLOCK\<close> the error returned is \<open>ErrLockLocked\<close>; on any other error number
    it is that \<open>Errno\<close> itself, not wrapped.
  \<^item> When the request succeeds, \<open>Lock\<close> in the same environment returns what
    \<open>TryLock\<close> returns: the same Locker and the same events.
  \<^item> \<open>ErrLockLocked\<close> is no error number and no wrapped error.
  \<^item> When the file cannot be opened, both methods return the error wrapped as
    \<open>open failed\<close> after the same events.
  \<^item> When the checks do not pass, both methods return an error with the Locker as it
    was, after the same events: the path is resolved once and no lock is requested.
\<close>

theorem TryLock_single_request:
  "(opens s l a f \<longrightarrow>
      TryLock s l =
        (case answer s f 0 of
           None \<Rightarrow> (None, l\<lparr>path := a, file' := Some f\<rparr>, open_events s l a @ [request s f])
         | Some e \<Rightarrow>
             (Some (if e = EAGAIN s \<or> e = EWOULDBLOCK s then ErrLockLocked else Errno e), l,
              open_events s l a @ [request s f])))
 \<and> (opens s l a f \<and> answer s f 0 = None \<longrightarrow> Lock s l = Some (TryLock s l))
 \<and> ErrLockLocked \<noteq> Errno n \<and> ErrLockLocked \<noteq> Wrap c m
 \<and> (filepath_Abs s (path l) = Inr a \<and> os_Stat s a = Inr fi \<and> \<not> IsDir fi
      \<and> os_OpenFile s a (O_RDWR s) perm0660 = Inl err \<longrightarrow>
      TryLock s l = (Some (Wrap err ''open failed''), l, open_events s l a)
    \<and> Lock s l = Some (TryLock s l))
 \<and> ((\<forall>a f. \<not> opens s l a f) \<longrightarrow>
      (\<exists>e1 e2 tr. Lock s l = Some (Some e1, l, tr) \<and> TryLock s l = (Some e2, l, tr)
           \<and> count_list tr (Call_Abs (path l)) = 1
           \<and> (\<forall>f. count_list tr (request s f) = 0)))"
proof (intro conjI impI)
  assume "opens s l a f"
  then show "TryLock s l =
        (case answer s f 0 of
           None \<Rightarrow> (None, l\<lparr>path := a, file' := Some f\<rparr>, open_events s l a @ [request s f])
         | Some e \<Rightarrow>
             (Some (if e = EAGAIN s \<or> e = EWOULDBLOCK s then ErrLockLocked else Errno e), l,
              open_events s l a @ [request s f]))"
    by (rule TryLock_opens)
next
  assume "opens s l a f \<and> answer s f 0 = None"
  then have o: "opens s l a f" and free: "answer s f 0 = None"
    by simp_all
  have "\<forall>i<0. answer s f i = Some (EWOULDBLOCK s)" by simp
  moreover from free have "answer s f 0 \<noteq> Some (EWOULDBLOCK s)" by simp
  ultimately show "Lock s l = Some (TryLock s l)"
    using Lock_run [OF o, of 0] free by (simp add: TryLock_opens [OF o] retries_def)
next
  show "ErrLockLocked \<noteq> Errno n" and "ErrLockLocked \<noteq> Wrap c m"
    by (simp_all add: ErrLockLocked_def)
next
  assume "filepath_Abs s (path l) = Inr a \<and> os_Stat s a = Inr fi \<and> \<not> IsDir fi
      \<and> os_OpenFile s a (O_RDWR s) perm0660 = Inl err"
  then show "TryLock s l = (Some (Wrap err ''open failed''), l, open_events s l a)"
    and "Lock s l = Some (TryLock s l)"
    by (simp_all add: Lock_open_fails TryLock_open_fails)
next
  assume "\<forall>a f. \<not> opens s l a f"
  then show "\<exists>e1 e2 tr. Lock s l = Some (Some e1, l, tr) \<and> TryLock s l = (Some e2, l, tr)
           \<and> count_list tr (Call_Abs (path l)) = 1
           \<and> (\<forall>f. count_list tr (request s f) = 0)"
    by (rule both_fail_alike)
qed

theorem TryLock_single_request_witness:
  "opens (tmp_env locks_held None) (New ''x.lock'' 0) ''/tmp/x.lock'' (OsFile 3)
 \<and> answer (tmp_env locks_held None) (OsFile 3) 0 = Some 11
 \<and> TryLock (tmp_env locks_held None) (New ''x.lock'' 0) =
     (Some (ErrorString ''lock: lock is locked''), New ''x.lock'' 0,
      [Call_Abs ''x.lock'', Call_Stat ''/tmp/x.lock'',
       Call_OpenFile ''/tmp/x.lock'' 2 432,
       Call_FcntlFlock 3 37 \<lparr>Type = 1, Whence = 0, Start = 0, Len = 0, Pid = 0\<rparr>])
 \<and> answer (tmp_env locks_broken None) (OsFile 3) 0 = Some 5
 \<and> TryLock (tmp_env locks_broken None) (New ''x.lock'' 0) =
     (Some (Errno 5), New ''x.lock'' 0,
      [Call_Abs ''x.lock'', Call_Stat ''/tmp/x.lock'',
       Call_OpenFile ''/tmp/x.lock'' 2 432,
       Call_FcntlFlock 3 37 \<lparr>Type = 1, Whence = 0, Start = 0, Len = 0, Pid = 0\<rparr>])
 \<and> answer (tmp_env locks_free None) (OsFile 3) 0 = None
 \<and> TryLock (tmp_env locks_free None) (New ''x.lock'' 0) =
     (None, \<lparr>path = ''/tmp/x.lock'', file' = Some (OsFile 3), retryInterval = 250000000\<rparr>,
      [Call_Abs ''x.lock'', Call_Stat ''/tmp/x.lock'',
       Call_OpenFile ''/tmp/x.lock'' 2 432,
       Call_FcntlFlock 3 37 \<lparr>Type = 1, Whence = 0, Start = 0, Len = 0, Pid = 0\<rparr>])
 \<and> Lock (tmp_env locks_free None) (New ''x.lock'' 0) =
     Some (TryLock (tmp_env locks_free None) (New ''x.lock'' 0))"
proof -
  have o: "opens (tmp_env lk None) (New ''x.lock'' 0) ''/tmp/x.lock'' (OsFile 3)" for lk
    by (simp add: tmp_defs)
  note t = TryLock_single_request [where l = "New ''x.lock'' 0" and a = "''/tmp/x.lock''"
      and f = "OsFile 3"]
  have free: "answer (tmp_env locks_free None) (OsFile 3) 0 = None"
    by (simp add: tmp_defs)
  from o [of locks_held] t [of "tmp_env locks_held None"]
  have 1: "TryLock (tmp_env locks_held None) (New ''x.lock'' 0) =
     (Some (ErrorString ''lock: lock is locked''), New ''x.lock'' 0,
      [Call_Abs ''x.lock'', Call_Stat ''/tmp/x.lock'',
       Call_OpenFile ''/tmp/x.lock'' 2 432,
       Call_FcntlFlock 3 37 \<lparr>Type = 1, Whence = 0, Start = 0, Len = 0, Pid = 0\<rparr>])"
    by (simp add: tmp_defs ErrLockLocked_def)
  from o [of locks_broken] t [of "tmp_env locks_broken None"]
  have 2: "TryLock (tmp_env locks_broken None) (New ''x.lock'' 0) =
     (Some (Errno 5), New ''x.lock'' 0,
      [Call_Abs ''x.lock'', Call_Stat ''/tmp/x.lock'',
       Call_OpenFile ''/tmp/x.lock'' 2 432,
       Call_FcntlFlock 3 37 \<lparr>Type = 1, Whence = 0, Start = 0, Len = 0, Pid = 0\<rparr>])"
    by (simp add: tmp_defs ErrLockLocked_def)
  from o [of locks_free] t [of "tmp_env locks_free None"]
  have 3: "TryLock (tmp_env locks_free None) (New ''x.lock'' 0) =
     (None, \<lparr>path = ''/tmp/x.lock'', file' = Some (OsFile 3), retryInterval = 250000000\<rparr>,
      [Call_Abs ''x.lock'', Call_Stat ''/tmp/x.lock'',
       Call_OpenFile ''/tmp/x.lock'' 2 432,
       Call_FcntlFlock 3 37 \<lparr>Type = 1, Whence = 0, Start = 0, Len = 0, Pid = 0\<rparr>])"
    by (simp add: tmp_defs ErrLockLocked_def)
  from o [of locks_free] free t [of "tmp_env locks_free None"]
  have 4: "Lock (tmp_env locks_free None) (New ''x.lock'' 0) =
     Some (TryLock (tmp_env locks_free None) (New ''x.lock'' 0))"
    by blast
  have "answer (tmp_env locks_held None) (OsFile 3) 0 = Some 11"
    and "answer (tmp_env locks_broken None) (OsFile 3) 0 = Some 5"
    by (simp_all add: tmp_defs)
  with o [of locks_held] free 1 2 3 4 show ?thesis
    by simp
qed

text \<open>
  C9. When \<open>TryLock\<close> has opened the file and its lock request fails, with whatever
  error number, it returns the error after the events of the checks and the request:
  no close is among them, for no file at all, and the Locker is as it was, so the
  file it opened is neither closed nor stored. \<open>Lock\<close> in the same place, on an error
  number that is not would-block, closes the file before it returns.
\<close>

theorem TryLock_leaves_file_open:
  assumes "opens s l a f" and "answer s f 0 = Some e"
  shows "TryLock s l =
           (Some (if e = EAGAIN s \<or> e = EWOULDBLOCK s then ErrLockLocked else Errno e), l,
            open_events s l a @ [request s f])
       \<and> (\<forall>g. count_list (snd (snd (TryLock s l))) (Call_Close g) = 0)
       \<and> fst (snd (TryLock s l)) = l
       \<and> (e \<noteq> EWOULDBLOCK s \<longrightarrow>
            Lock s l = Some (Some (Wrap (Errno e) ''lock failed''), l,
                             open_events s l a @ [request s f, Call_Close f]))"
proof -
  have T: "TryLock s l =
           (Some (if e = EAGAIN s \<or> e = EWOULDBLOCK s then ErrLockLocked else Errno e), l,
            open_events s l a @ [request s f])"
    using assms by (simp add: TryLock_opens)
  have L: "Lock s l = Some (Some (Wrap (Errno e) ''lock failed''), l,
                             open_events s l a @ [request s f, Call_Close f])"
    if "e \<noteq> EWOULDBLOCK s"
  proof -
    have "\<forall>i<0. answer s f i = Some (EWOULDBLOCK s)" by simp
    moreover from that assms(2) have "answer s f 0 \<noteq> Some (EWOULDBLOCK s)" by simp
    ultimately show ?thesis
      using Lock_run [OF assms(1), of 0] assms(2) by (simp add: retries_def)
  qed
  from T L show ?thesis
    by (simp add: open_events_def request_def)
qed

theorem TryLock_leaves_file_open_witness:
  "opens (tmp_env locks_broken None) (New ''x.lock'' 0) ''/tmp/x.lock'' (OsFile 3)
 \<and> answer (tmp_env locks_broken None) (OsFile 3) 0 = Some 5
 \<and> TryLock (tmp_env locks_broken None) (New ''x.lock'' 0) =
     (Some (Errno 5), New ''x.lock'' 0,
      [Call_Abs ''x.lock'', Call_Stat ''/tmp/x.lock'',
       Call_OpenFile ''/tmp/x.lock'' 2 432,
       Call_FcntlFlock 3 37 \<lparr>Type = 1, Whence = 0, Start = 0, Len = 0, Pid = 0\<rparr>])
 \<and> Lock (tmp_env locks_broken None) (New ''x.lock'' 0) =
     Some (Some (Wrap (Errno 5) ''lock failed''), New ''x.lock'' 0,
      [Call_Abs ''x.lock'', Call_Stat ''/tmp/x.lock'',
       Call_OpenFile ''/tmp/x.lock'' 2 432,
       Call_FcntlFlock 3 37 \<lparr>Type = 1, Whence = 0, Start = 0, Len = 0, Pid = 0\<rparr>,
       Call_Close (OsFile 3)])"
proof -
  have o: "opens (tmp_env locks_broken None) (New ''x.lock'' 0) ''/tmp/x.lock'' (OsFile 3)"
    by (simp add: tmp_defs)
  have a: "answer (tmp_env locks_broken None) (OsFile 3) 0 = Some 5"
    by (simp add: tmp_defs)
  from TryLock_leaves_file_open [OF o a] o a show ?thesis
    by (simp add: tmp_defs ErrLockLocked_def)
qed

subsection \<open>Release\<close>

text \<open>
  C6. On a Locker that has a file, \<open>Unlock\<close> makes one external call, the close of
  that file: no lock request is made to unlock. When the close fails, the error is
  returned wrapped as \<open>close failed\<close>; when it succeeds, no error is returned. In
  both cases the Locker is as it was: its fields are not cleared.
\<close>

theorem Unlock_closes_file:
  assumes "file' l = Some f"
  shows "snd (snd (Unlock s l)) = [Call_Close f]
       \<and> fst (snd (Unlock s l)) = l
       \<and> (file_close s f = Some err \<longrightarrow>
            Unlock s l = (Some (Wrap err ''close failed''), l, [Call_Close f]))
       \<and> (file_close s f = None \<longrightarrow> Unlock s l = (None, l, [Call_Close f]))"
  using assms
  by (simp add: Unlock_def File_Close_def split: option.splits)

theorem Unlock_closes_file_witness:
  "file' \<lparr>path = ''/tmp/x.lock'', file' = Some (OsFile 3), retryInterval = 250000000\<rparr>
     = Some (OsFile 3)
 \<and> file_close (tmp_env locks_free (Some (Errno 5))) (OsFile 3) = Some (Errno 5)
 \<and> Unlock (tmp_env locks_free (Some (Errno 5)))
      \<lparr>path = ''/tmp/x.lock'', file' = Some (OsFile 3), retryInterval = 250000000\<rparr> =
     (Some (Wrap (Errno 5) ''close failed''),
      \<lparr>path = ''/tmp/x.lock'', file' = Some (OsFile 3), retryInterval = 250000000\<rparr>,
      [Call_Close (OsFile 3)])"
proof -
  let ?l = "\<lparr>path = ''/tmp/x.lock'', file' = Some (OsFile 3), retryInterval = 250000000\<rparr>"
  have f: "file' ?l = Some (OsFile 3)"
    by simp
  have c: "file_close (tmp_env locks_free (Some (Errno 5))) (OsFile 3) = Some (Errno 5)"
    by (simp add: tmp_env_def)
  from Unlock_closes_file [OF f, of "tmp_env locks_free (Some (Errno 5))" "Errno 5"] c f
  show ?thesis
    by simp
qed

text \<open>
  C10. On a Locker whose file is absent, as it is from \<open>New\<close> until an acquisition
  succeeds, \<open>Unlock\<close> calls \<^verbatim>\<open>Close\<close> on the \<^verbatim>\<open>nil\<close> file, which returns
  \<^verbatim>\<open>os.ErrInvalid\<close> (\<open>invalid argument\<close>) without a system call; \<open>Unlock\<close> returns
  that error wrapped as \<open>close failed\<close>, as a value and not as a panic, and leaves the
  Locker as it was.
\<close>

theorem Unlock_without_file:
  assumes "file' l = None"
  shows "Unlock s l = (Some (Wrap ErrInvalid ''close failed''), l, [])"
  using assms
  by (simp add: Unlock_def File_Close_def)

theorem Unlock_without_file_witness:
  "file' (New ''x.lock'' 0) = None
 \<and> Unlock (tmp_env locks_free None) (New ''x.lock'' 0) =
     (Some (Wrap (ErrorString ''invalid argument'') ''close failed''), New ''x.lock'' 0, [])"
proof -
  have n: "file' (New ''x.lock'' 0) = None"
    by (simp add: New_def)
  from Unlock_without_file [OF n, of "tmp_env locks_free None"] n show ?thesis
    by (simp add: ErrInvalid_def)
qed

subsection \<open>The file field over the life of a Locker\<close>

text \<open>
  The file field does not tell whether the lock is held. Here \<open>Lock\<close> succeeds on
  a free lock and stores the file with descriptor 3; \<open>Unlock\<close> on the resulting
  Locker closes that file and returns no error; the Locker after that \<open>Unlock\<close>
  still has the file in its field.
\<close>

theorem file_present_after_Unlock:
  "Lock (tmp_env locks_free None) (New ''x.lock'' 0) =
     Some (None,
           \<lparr>path = ''/tmp/x.lock'', file' = Some (OsFile 3), retryInterval = 250000000\<rparr>,
           [Call_Abs ''x.lock'', Call_Stat ''/tmp/x.lock'',
            Call_OpenFile ''/tmp/x.lock'' 2 432,
            Call_FcntlFlock 3 37 \<lparr>Type = 1, Whence = 0, Start = 0, Len = 0, Pid = 0\<rparr>])
 \<and> Unlock (tmp_env locks_free None)
      \<lparr>path = ''/tmp/x.lock'', file' = Some (OsFile 3), retryInterval = 250000000\<rparr> =
     (None,
      \<lparr>path = ''/tmp/x.lock'', file' = Some (OsFile 3), retryInterval = 250000000\<rparr>,
      [Call_Close (OsFile 3)])
 \<and> file' (fst (snd (Unlock (tmp_env locks_free None)
      \<lparr>path = ''/tmp/x.lock'', file' = Some (OsFile 3), retryInterval = 250000000\<rparr>)))
     \<noteq> None"
proof -
  have o: "opens (tmp_env locks_free None) (New ''x.lock'' 0) ''/tmp/x.lock'' (OsFile 3)"
    by (simp add: tmp_defs)
  have "\<forall>i<0. answer (tmp_env locks_free None) (OsFile 3) i
            = Some (EWOULDBLOCK (tmp_env locks_free None))"
    by simp
  moreover have "answer (tmp_env locks_free None) (OsFile 3) 0
            \<noteq> Some (EWOULDBLOCK (tmp_env locks_free None))"
    by (simp add: tmp_defs)
  ultimately have "Lock (tmp_env locks_free None) (New ''x.lock'' 0) =
     Some (None,
           \<lparr>path = ''/tmp/x.lock'', file' = Some (OsFile 3), retryInterval = 250000000\<rparr>,
           [Call_Abs ''x.lock'', Call_Stat ''/tmp/x.lock'',
            Call_OpenFile ''/tmp/x.lock'' 2 432,
            Call_FcntlFlock 3 37 \<lparr>Type = 1, Whence = 0, Start = 0, Len = 0, Pid = 0\<rparr>])"
    using Lock_run [OF o, of 0] by (simp add: tmp_defs)
  then show ?thesis
    by (simp add: Unlock_def File_Close_def tmp_env_def)
qed

text \<open>
  C5, as the code has it. The file field is absent at construction. A successful
  \<open>Lock\<close> or \<open>TryLock\<close> sets it to the file that the call opened; a \<open>Lock\<close> or
  \<open>TryLock\<close> that returns an error leaves it as it was. \<open>Unlock\<close> never changes
  the Locker; on a Locker that has a file its one call is the close of that file, and
  the file is still in the field afterwards, so the field is not cleared by a release.
\<close>

theorem file_field_lifecycle:
  "file' (New p d) = None
 \<and> (Lock s l = Some (None, l', tr) \<longrightarrow> (\<exists>a f. opens s l a f \<and> file' l' = Some f))
 \<and> (Lock s l = Some (Some e, l', tr) \<longrightarrow> file' l' = file' l)
 \<and> (TryLock s l = (None, l', tr) \<longrightarrow> (\<exists>a f. opens s l a f \<and> file' l' = Some f))
 \<and> (TryLock s l = (Some e, l', tr) \<longrightarrow> file' l' = file' l)
 \<and> fst (snd (Unlock s l)) = l
 \<and> (file' l = Some g \<longrightarrow>
      snd (snd (Unlock s l)) = [Call_Close g]
    \<and> file' (fst (snd (Unlock s l))) = Some g)"
proof (intro conjI impI)
  show "file' (New p d) = None"
    by (simp add: New_def)
next
  assume "Lock s l = Some (None, l', tr)"
  then show "\<exists>a f. opens s l a f \<and> file' l' = Some f"
    by (rule Lock_success_opens) auto
next
  assume "Lock s l = Some (Some e, l', tr)"
  then have "l' = l" by (rule Lock_error_state)
  then show "file' l' = file' l" by simp
next
  assume "TryLock s l = (None, l', tr)"
  then show "\<exists>a f. opens s l a f \<and> file' l' = Some f"
    by (rule TryLock_success_state) auto
next
  assume "TryLock s l = (Some e, l', tr)"
  then have "l' = l" by (rule TryLock_error_state)
  then show "file' l' = file' l" by simp
next
  show "fst (snd (Unlock s l)) = l"
    by (simp add: Unlock_def split: prod.splits option.splits)
next
  assume g: "file' l = Some g"
  then show "snd (snd (Unlock s l)) = [Call_Close g]"
    by (simp add: Unlock_def File_Close_def split: option.splits)
  from g show "file' (fst (snd (Unlock s l))) = Some g"
    by (simp add: Unlock_def File_Close_def split: option.splits)
qed

theorem file_field_lifecycle_witness:
  "TryLock (tmp_env locks_free None) (New ''x.lock'' 0) =
     (None,
      \<lparr>path = ''/tmp/x.lock'', file' = Some (OsFile 3), retryInterval = 250000000\<rparr>,
      [Call_Abs ''x.lock'', Call_Stat ''/tmp/x.lock'',
       Call_OpenFile ''/tmp/x.lock'' 2 432,
       Call_FcntlFlock 3 37 \<lparr>Type = 1, Whence = 0, Start = 0, Len = 0, Pid = 0\<rparr>])
 \<and> opens (tmp_env locks_free None) (New ''x.lock'' 0) ''/tmp/x.lock'' (OsFile 3)
 \<and> TryLock (tmp_env locks_held None) (New ''x.lock'' 0) =
     (Some ErrLockLocked, New ''x.lock'' 0,
      [Call_Abs ''x.lock'', Call_Stat ''/tmp/x.lock'',
       Call_OpenFile ''/tmp/x.lock'' 2 432,
       Call_FcntlFlock 3 37 \<lparr>Type = 1, Whence = 0, Start = 0, Len = 0, Pid = 0\<rparr>])
 \<and> file' (fst (snd (TryLock (tmp_env locks_held None) (New ''x.lock'' 0)))) = None
 \<and> fst (snd (Unlock (tmp_env locks_free (Some (Errno 5)))
      \<lparr>path = ''/tmp/x.lock'', file' = Some (OsFile 3), retryInterval = 250000000\<rparr>)) =
     \<lparr>path = ''/tmp/x.lock'', file' = Some (OsFile 3), retryInterval = 250000000\<rparr>
 \<and> file' \<lparr>path = ''/tmp/x.lock'', file' = Some (OsFile 3), retryInterval = 250000000\<rparr>
     = Some (OsFile 3)
 \<and> snd (snd (Unlock (tmp_env locks_free None)
      \<lparr>path = ''/tmp/x.lock'', file' = Some (OsFile 3), retryInterval = 250000000\<rparr>)) =
     [Call_Close (OsFile 3)]
 \<and> file' (fst (snd (Unlock (tmp_env locks_free None)
      \<lparr>path = ''/tmp/x.lock'', file' = Some (OsFile 3), retryInterval = 250000000\<rparr>))) =
     Some (OsFile 3)"
proof -
  let ?tr = "[Call_Abs ''x.lock'', Call_Stat ''/tmp/x.lock'',
       Call_OpenFile ''/tmp/x.lock'' 2 432,
       Call_FcntlFlock 3 37 \<lparr>Type = 1, Whence = 0, Start = 0, Len = 0, Pid = 0\<rparr>]"
  let ?l = "\<lparr>path = ''/tmp/x.lock'', file' = Some (OsFile 3), retryInterval = 250000000\<rparr>"
  have o: "opens (tmp_env lk None) (New ''x.lock'' 0) ''/tmp/x.lock'' (OsFile 3)" for lk
    by (simp add: tmp_defs)
  have 1: "TryLock (tmp_env locks_free None) (New ''x.lock'' 0) = (None, ?l, ?tr)"
    by (simp add: TryLock_opens [OF o]) (simp add: tmp_defs)
  have 2: "TryLock (tmp_env locks_held None) (New ''x.lock'' 0) =
      (Some ErrLockLocked, New ''x.lock'' 0, ?tr)"
    by (simp add: TryLock_opens [OF o]) (simp add: tmp_defs)
  note t = file_field_lifecycle [where p = "''x.lock''" and d = 0
      and l = "New ''x.lock'' 0" and e = ErrLockLocked and tr = ?tr]
  from 2 t [where s = "tmp_env locks_held None" and l' = "New ''x.lock'' 0"]
  have 3: "file' (fst (snd (TryLock (tmp_env locks_held None) (New ''x.lock'' 0)))) = None"
    by simp
  from file_field_lifecycle [where s = "tmp_env locks_free (Some (Errno 5))" and l = ?l]
  have 4: "fst (snd (Unlock (tmp_env locks_free (Some (Errno 5))) ?l)) = ?l"
    by blast
  have 5: "file' ?l = Some (OsFile 3)"
    by simp
  from 5 file_field_lifecycle [where s = "tmp_env locks_free None" and l = ?l
      and g = "OsFile 3"]
  have 6: "snd (snd (Unlock (tmp_env locks_free None) ?l)) = [Call_Close (OsFile 3)]
         \<and> file' (fst (snd (Unlock (tmp_env locks_free None) ?l))) = Some (OsFile 3)"
    by blast
  from 1 o [of locks_free] 2 3 4 5 6 show ?thesis
    by simp
qed

end
